theory Spec2Isabelle
  imports Complex_Main "HOL-Library.Word" "HOL-Library.Code_Target_Numeral"
begin

unbundle bit_operations_syntax

section \<open>The AIFF to 8-bit PCM converter (aiff2arduino.go)\<close>

text \<open>
  A shallow embedding of \<^verbatim>\<open>aiff2arduino.go\<close>. The input file is the list of bytes that
  the buffered reader has not consumed yet; every read returns the remaining bytes.
  A \<^verbatim>\<open>panic\<close> of the program is a value of type \<open>error\<close>: \<open>IOError\<close> stands for
  \<^verbatim>\<open>panic(err)\<close> with the error of a failed read or open, \<open>Panic msg\<close> for a
  \<^verbatim>\<open>panic\<close> with the message \<open>msg\<close>.
  Go strings are byte sequences, so a chunk tag and the string literal it is compared
  with are both byte lists (\<open>gostring\<close> turns a literal into its bytes).
\<close>

subsection \<open>Bytes, readers and big-endian decoding\<close>

type_synonym byte = "8 word"
type_synonym reader = "byte list"

datatype error = IOError | Panic string

definition gostring :: "string \<Rightarrow> byte list" where
  "gostring s = map (\<lambda>c. of_nat (of_char c)) s"

text \<open>\<^verbatim>\<open>r.ReadByte()\<close>: the next byte, or an error (\<open>None\<close>) at the end of the file.\<close>

definition ReadByte :: "reader \<Rightarrow> byte option \<times> reader" where
  "ReadByte r = (case r of [] \<Rightarrow> (None, []) | b # r' \<Rightarrow> (Some b, r'))"

text \<open>
  \<^verbatim>\<open>binary.Read\<close> of a fixed-size struct reads all of its \<open>n\<close> bytes or fails
  (\<^verbatim>\<open>io.EOF\<close> or \<^verbatim>\<open>io.ErrUnexpectedEOF\<close>).
\<close>

definition ReadFull :: "nat \<Rightarrow> reader \<Rightarrow> (byte list \<times> reader) option" where
  "ReadFull n r = (if length r < n then None else Some (take n r, drop n r))"

definition be16 :: "byte list \<Rightarrow> 16 word" where
  "be16 bs = push_bit 8 (ucast (bs ! 0)) OR ucast (bs ! 1)"

definition be32 :: "byte list \<Rightarrow> 32 word" where
  "be32 bs = push_bit 24 (ucast (bs ! 0)) OR push_bit 16 (ucast (bs ! 1)) OR
             push_bit 8 (ucast (bs ! 2)) OR ucast (bs ! 3)"

text \<open>
  \<^verbatim>\<open>readInt16(b1, b2)\<close>: a big-endian signed 16-bit value (read it with \<open>sint\<close>). The
  two-byte buffer always holds the two bytes, so the error it returns is always nil.
\<close>

definition readInt16 :: "byte \<Rightarrow> byte \<Rightarrow> 16 word" where
  "readInt16 b1 b2 = be16 [b1, b2]"

subsection \<open>Chunk headers and the chunk scanner\<close>

record ChunkHeader =
  ChunkId :: "byte list"
  Size :: "32 word"

record AIFFChunkHeader = ChunkHeader +
  FormType :: "byte list"

definition ID_String :: "byte list \<Rightarrow> byte list" where
  "ID_String tag = take 4 tag"

definition read_ChunkHeader :: "reader \<Rightarrow> (ChunkHeader \<times> reader) option" where
  "read_ChunkHeader r =
     (case ReadFull 8 r of
        None \<Rightarrow> None
      | Some (bs, r') \<Rightarrow> Some (\<lparr>ChunkId = take 4 bs, Size = be32 (drop 4 bs)\<rparr>, r'))"

text \<open>
  \<^verbatim>\<open>for i := int32(0); i < size; i++ { r.ReadByte() }\<close>: the loop runs \<open>size\<close> times when
  \<open>size\<close> is positive and not at all otherwise; the error of \<^verbatim>\<open>ReadByte\<close> is ignored,
  so at the end of the file the remaining rounds read nothing.
\<close>

primrec skipLoop :: "nat \<Rightarrow> reader \<Rightarrow> reader" where
  "skipLoop 0 r = r"
| "skipLoop (Suc n) r = skipLoop n (snd (ReadByte r))"

definition skipBytes :: "reader \<Rightarrow> 32 word \<Rightarrow> reader" where
  "skipBytes r sz = skipLoop (nat (sint sz)) r"

lemma skipLoop_drop: "skipLoop n r = drop n r"
proof (induction n arbitrary: r)
  case 0
  show ?case by simp
next
  case (Suc n)
  show ?case
  proof (cases r)
    case Nil
    with Suc show ?thesis by (simp add: ReadByte_def)
  next
    case (Cons b r')
    with Suc show ?thesis by (simp add: ReadByte_def)
  qed
qed

lemma read_ChunkHeader_length:
  "read_ChunkHeader r = Some (chunk, r') \<Longrightarrow> length r' < length r"
  by (auto simp: read_ChunkHeader_def ReadFull_def split: if_splits)

function scanChunk :: "reader \<Rightarrow> byte list \<Rightarrow> error + reader" where
  "scanChunk r chunkId =
     (case read_ChunkHeader r of
        None \<Rightarrow> Inl IOError
      | Some (chunk, r') \<Rightarrow>
          if ID_String (ChunkId chunk) = chunkId then Inr r'
          else scanChunk (skipBytes r' ((Size chunk + 1) AND NOT 1)) chunkId)"
  by pat_completeness auto
termination
proof (relation "measure (\<lambda>(r, chunkId). length r)")
  show "wf (measure (\<lambda>(r, chunkId). length r))" by simp
next
  fix r :: reader and chunkId :: "byte list" and x2 chunk r'
  assume "read_ChunkHeader r = Some x2" and "(chunk, r') = x2"
  then have "length r' < length r"
    using read_ChunkHeader_length [of r chunk r'] by simp
  then show "((skipBytes r' ((Size chunk + 1) AND NOT 1), chunkId), (r, chunkId))
      \<in> measure (\<lambda>(r, chunkId). length r)"
    by (simp add: skipBytes_def skipLoop_drop)
qed

declare scanChunk.simps [simp del]

subsection \<open>The 80-bit extended float of the sample rate\<close>

record Extended =
  Exponent :: "16 word"
  HiMant :: "32 word"
  LoMant :: "32 word"

text \<open>
  \<^verbatim>\<open>Float64\<close> returns a 64-bit float. Its result is kept symbolic, so that nothing is
  assumed about floating-point rounding: \<open>F64_Zero\<close> is \<^verbatim>\<open>0.0\<close>, \<open>F64_Max\<close> is
  \<^verbatim>\<open>math.MaxFloat64\<close>, and \<open>F64_Sum hi e1 lo e2\<close> is the value of the float expression
  \<^verbatim>\<open>float64(hi) * math.Pow(2, e1) + float64(lo) * math.Pow(2, e2)\<close>, where \<open>e1\<close> and
  \<open>e2\<close> are the integers that the code converts and passes to \<^verbatim>\<open>math.Pow\<close>.
  The variable \<^verbatim>\<open>exp\<close> has the type of \<^verbatim>\<open>e.Exponent\<close>, \<^verbatim>\<open>int16\<close>, so the
  subtractions wrap around.
\<close>

datatype float64_value = F64_Zero | F64_Max | F64_Sum nat int nat int

definition Float64 :: "Extended \<Rightarrow> float64_value" where
  "Float64 e =
     (if Exponent e = 0 \<and> HiMant e = 0 \<and> LoMant e = 0 then F64_Zero
      else if Exponent e = 0x7fff then F64_Max
      else
        let exp = Exponent e - 16383;
            exp1 = exp - 31;
            exp2 = exp1 - 32
        in F64_Sum (unat (HiMant e)) (sint exp1) (unat (LoMant e)) (sint exp2))"

text \<open>
  The decoder as the specification words it, with the exponents as integers:
  \<open>exp = exponent - 16383 - 31\<close>, \<open>value = hi * 2^exp\<close>, then \<open>exp -= 32\<close>,
  \<open>value += lo * 2^exp\<close>.
\<close>

definition Float64_spec :: "Extended \<Rightarrow> float64_value" where
  "Float64_spec e =
     (if Exponent e = 0 \<and> HiMant e = 0 \<and> LoMant e = 0 then F64_Zero
      else if Exponent e = 0x7fff then F64_Max
      else F64_Sum (unat (HiMant e)) (sint (Exponent e) - 16383 - 31)
                   (unat (LoMant e)) (sint (Exponent e) - 16383 - 63))"

text \<open>The value of an integer after a wrap-around into the range of \<^verbatim>\<open>int16\<close>.\<close>

definition wrap16 :: "int \<Rightarrow> int" where
  "wrap16 k = (k + 32768) mod 65536 - 32768"

subsection \<open>The container headers\<close>

record CommonChunkHeader =
  NumChannels :: "16 word"
  NumSampleFrames :: "32 word"
  SampleSize :: "16 word"
  SampleRate :: Extended

record CompressionHeader =
  CompressionType :: "byte list"
  CompressionNameSize :: byte

record SoundDataChunkHeader =
  Offset :: "32 word"
  BlockSize :: "32 word"

definition read_AIFFChunkHeader :: "reader \<Rightarrow> (AIFFChunkHeader \<times> reader) option" where
  "read_AIFFChunkHeader r =
     (case ReadFull 12 r of
        None \<Rightarrow> None
      | Some (bs, r') \<Rightarrow>
          Some (\<lparr>ChunkId = take 4 bs, Size = be32 (take 4 (drop 4 bs)),
                 FormType = drop 8 bs\<rparr>, r'))"

definition read_CommonChunkHeader :: "reader \<Rightarrow> (CommonChunkHeader \<times> reader) option" where
  "read_CommonChunkHeader r =
     (case ReadFull 18 r of
        None \<Rightarrow> None
      | Some (bs, r') \<Rightarrow>
          Some (\<lparr>NumChannels = be16 bs,
                 NumSampleFrames = be32 (drop 2 bs),
                 SampleSize = be16 (drop 6 bs),
                 SampleRate = \<lparr>Exponent = be16 (drop 8 bs), HiMant = be32 (drop 10 bs),
                               LoMant = be32 (drop 14 bs)\<rparr>\<rparr>, r'))"

definition read_CompressionHeader :: "reader \<Rightarrow> (CompressionHeader \<times> reader) option" where
  "read_CompressionHeader r =
     (case ReadFull 5 r of
        None \<Rightarrow> None
      | Some (bs, r') \<Rightarrow>
          Some (\<lparr>CompressionType = take 4 bs, CompressionNameSize = bs ! 4\<rparr>, r'))"

definition read_SoundDataChunkHeader :: "reader \<Rightarrow> (SoundDataChunkHeader \<times> reader) option" where
  "read_SoundDataChunkHeader r =
     (case ReadFull 8 r of
        None \<Rightarrow> None
      | Some (bs, r') \<Rightarrow> Some (\<lparr>Offset = be32 bs, BlockSize = be32 (drop 4 bs)\<rparr>, r'))"

text \<open>
  The block under \<^verbatim>\<open>if hasCompression\<close>: read the compression header, accept the
  tag \<^verbatim>\<open>"raw "\<close> only, skip the rest of the padded name.
\<close>

definition readCompression :: "reader \<Rightarrow> error + reader" where
  "readCompression r =
     (case read_CompressionHeader r of
        None \<Rightarrow> Inl IOError
      | Some (compression, r') \<Rightarrow>
          if ID_String (CompressionType compression) \<noteq> gostring ''raw ''
          then Inl (Panic ''Invalid file format: must be a raw PCM.'')
          else
            let paddedStringSize = (ucast (CompressionNameSize compression) + 2) AND NOT 1
            in Inr (skipBytes r' (paddedStringSize - 1)))"

text \<open>
  The part of \<^verbatim>\<open>main\<close> from the container chunk to the check of the sound data
  header: everything that happens before the first write to standard output. It
  returns the common chunk and the reader placed on the first sample.
\<close>

definition parseHeaders :: "reader \<Rightarrow> error + (CommonChunkHeader \<times> reader)" where
  "parseHeaders r0 =
     (case read_AIFFChunkHeader r0 of
        None \<Rightarrow> Inl IOError
      | Some (header, r1) \<Rightarrow>
          if ID_String (ChunkId header) \<noteq> gostring ''FORM''
          then Inl (Panic ''Invalid file format: Not an AIFF file.'')
          else if ID_String (FormType header) \<noteq> gostring ''AIFC''
                \<and> ID_String (FormType header) \<noteq> gostring ''AIFF''
          then Inl (Panic ''Invalid file format: Not an AIFF file.'')
          else
            let hasCompression = (FormType header ! 3 = 67)
            in case scanChunk r1 (gostring ''COMM'') of
                 Inl e \<Rightarrow> Inl e
               | Inr r2 \<Rightarrow>
                   (case read_CommonChunkHeader r2 of
                      None \<Rightarrow> Inl IOError
                    | Some (common, r3) \<Rightarrow>
                        (case (if hasCompression then readCompression r3 else Inr r3) of
                           Inl e \<Rightarrow> Inl e
                         | Inr r4 \<Rightarrow>
                             if SampleSize common \<noteq> 8 \<and> SampleSize common \<noteq> 16
                             then Inl (Panic ''Sample size must be 8-bit or 16-bit.'')
                             else
                               (case scanChunk r4 (gostring ''SSND'') of
                                  Inl e \<Rightarrow> Inl e
                                | Inr r5 \<Rightarrow>
                                    (case read_SoundDataChunkHeader r5 of
                                       None \<Rightarrow> Inl IOError
                                     | Some (chunk, r6) \<Rightarrow>
                                         if Offset chunk \<noteq> 0 \<or> BlockSize chunk \<noteq> 0
                                         then Inl (Panic ''Non-zero offset/blockSize is not supported.'')
                                         else Inr (common, r6))))))"

subsection \<open>Bit-depth reduction and the dither filter\<close>

text \<open>
  A finite \<^verbatim>\<open>float64\<close> is modelled by the rational number it holds, and every
  floating-point operation by the exact operation followed by the rounding \<open>fl\<close> of
  IEEE 754 binary64: to the nearest number with 53 significant bits, ties to the even
  one, with the quantum \<open>2^-1074\<close> of the subnormal numbers as the smallest step.
  \<open>ilog2 x\<close> is the exponent \<open>e\<close> with \<open>2^e \<le> x < 2^(e + 1)\<close> and \<open>rne\<close> rounds to
  the nearest integer, ties to even. Infinities and NaN are not modelled: in the filter
  every history entry is at most 1/2 in magnitude and every sample value at most 256,
  so no operation overflows. The operations are rounded one by one, as the compiler
  for amd64 does (it does not fuse a multiplication and an addition).

  On the path without dither the conversion of a sample is written without \<open>fl\<close>: a
  16-bit sample divided by 256 plus 128 is a multiple of \<open>1/256\<close> below 256, which a
  64-bit float holds exactly.
\<close>

fun bits :: "nat \<Rightarrow> nat" where
  "bits n = (if n = 0 then 0 else Suc (bits (n div 2)))"

declare bits.simps [simp del]

definition pow2 :: "int \<Rightarrow> rat" where
  "pow2 k = (if 0 \<le> k then 2 ^ nat k else 1 / 2 ^ nat (- k))"

definition ilog2 :: "rat \<Rightarrow> int" where
  "ilog2 x =
     (let k = (if 1 \<le> x then int (bits (nat \<lfloor>x\<rfloor>)) - 1 else - int (bits (nat \<lfloor>1 / x\<rfloor>)))
      in if pow2 (k + 1) \<le> x then k + 1 else k)"

definition rne :: "rat \<Rightarrow> int" where
  "rne q =
     (let f = \<lfloor>q\<rfloor>; d = q - of_int f
      in if d < 1 / 2 then f else if 1 / 2 < d then f + 1 else if even f then f else f + 1)"

definition fl :: "rat \<Rightarrow> rat" where
  "fl x =
     (if x = 0 then 0
      else let q = max (ilog2 \<bar>x\<bar> - 52) (- 1074) in of_int (rne (x / pow2 q)) * pow2 q)"

definition fadd :: "rat \<Rightarrow> rat \<Rightarrow> rat" where
  "fadd x y = fl (x + y)"

definition fsub :: "rat \<Rightarrow> rat \<Rightarrow> rat" where
  "fsub x y = fl (x - y)"

definition fmul :: "rat \<Rightarrow> rat \<Rightarrow> rat" where
  "fmul x y = fl (x * y)"

definition fdiv :: "rat \<Rightarrow> rat \<Rightarrow> rat" where
  "fdiv x y = fl (x / y)"

text \<open>
  The pseudo-random generator is a sequence of draws and a position in it:
  \<^verbatim>\<open>rand.Int31()\<close> returns the draw at the position, a non-negative 31-bit integer
  (hence the reduction modulo \<open>2^31\<close>), and moves on. The sequence stands for the
  seed, which \<^verbatim>\<open>main\<close> takes from the clock.
\<close>

record rand =
  draws :: "nat \<Rightarrow> nat"
  pos :: nat

definition Int31 :: "rand \<Rightarrow> nat \<times> rand" where
  "Int31 g = (draws g (pos g) mod 2 ^ 31, g\<lparr>pos := pos g + 1\<rparr>)"

definition MaxInt32 :: nat where
  "MaxInt32 = 2147483647"

definition noise :: "rand \<Rightarrow> rat \<times> rand" where
  "noise g = (let (n, g') = Int31 g in (fsub (fdiv (of_nat n) (of_nat MaxInt32)) (1 / 2), g'))"

definition round' :: "rat \<Rightarrow> rat" where
  "round' v = of_int \<lfloor>fadd v (1 / 2)\<rfloor>"

definition filter' :: "rat \<Rightarrow> rat" where
  "filter' v = (if v > 255 then 255 else if v < 0 then 0 else v)"

text \<open>
  The conversion \<^verbatim>\<open>uint16(x)\<close> of a float drops the fraction (towards zero).
\<close>

definition uint16 :: "rat \<Rightarrow> 16 word" where
  "uint16 x = word_of_int (if x < 0 then - \<lfloor>- x\<rfloor> else \<lfloor>x\<rfloor>)"

text \<open>
  The variables \<^verbatim>\<open>buffer\<close> and \<^verbatim>\<open>idx\<close> that the closure \<^verbatim>\<open>dither\<close> captures.
  \<^verbatim>\<open>idx\<close> is a \<^verbatim>\<open>uint\<close>, 64 bits wide here; \<^verbatim>\<open>idx - k\<close> wraps around below zero
  and the mask keeps its three low bits, which do not depend on the width.
\<close>

record dither_state =
  buffer :: "rat list"
  idx :: "64 word"

definition DITHER_BUF_MASK :: "64 word" where
  "DITHER_BUF_MASK = 7"

definition DITHER_BUF_SIZE :: nat where
  "DITHER_BUF_SIZE = 8"

text \<open>The constants are the 64-bit floats nearest to the decimal literals.\<close>

definition SHAPED_BS :: "rat list" where
  "SHAPED_BS =
     [fl (2033 / 1000), fl (- (2165 / 1000)), fl (1959 / 1000), fl (- (1590 / 1000)),
      fl (6149 / 10000)]"

definition dither_init :: dither_state where
  "dither_init = \<lparr>buffer = replicate DITHER_BUF_SIZE 0, idx = 0\<rparr>"

definition dither_xe :: "rat \<Rightarrow> dither_state \<Rightarrow> rat" where
  "dither_xe v st =
     fadd (fadd (fadd (fadd (fadd v
       (fmul (buffer st ! unat ((idx st - 0) AND DITHER_BUF_MASK)) (SHAPED_BS ! 0)))
       (fmul (buffer st ! unat ((idx st - 1) AND DITHER_BUF_MASK)) (SHAPED_BS ! 1)))
       (fmul (buffer st ! unat ((idx st - 2) AND DITHER_BUF_MASK)) (SHAPED_BS ! 2)))
       (fmul (buffer st ! unat ((idx st - 3) AND DITHER_BUF_MASK)) (SHAPED_BS ! 3)))
       (fmul (buffer st ! unat ((idx st - 4) AND DITHER_BUF_MASK)) (SHAPED_BS ! 4))"

definition dither :: "rat \<Rightarrow> bool \<Rightarrow> dither_state \<Rightarrow> rand \<Rightarrow> rat \<times> dither_state \<times> rand" where
  "dither v addNoise st g =
     (let xe = dither_xe v st;
          (result, g') =
            (if addNoise
             then let (n1, g1) = noise g; (n2, g2) = noise g1 in (fadd xe (fadd n1 n2), g2)
             else (xe, g));
          result = round' result;
          idx' = (idx st + 1) AND DITHER_BUF_MASK
      in (result, \<lparr>buffer = (buffer st)[unat idx' := fsub xe result], idx = idx'\<rparr>, g'))"

subsection \<open>The sample loop and the output\<close>

text \<open>
  Standard output is the list of the values printed so far, in order: \<open>Text s\<close> is a
  string written by \<^verbatim>\<open>fmt.Printf\<close>, \<^verbatim>\<open>fmt.Print\<close> or \<^verbatim>\<open>fmt.Println\<close>, \<open>Num n\<close> an
  integer written by \<^verbatim>\<open>fmt.Print\<close> (in decimal, see \<open>render\<close>). Standard output is not
  buffered, so what was printed before a panic stays printed. The four lines that
  \<^verbatim>\<open>main\<close> writes to standard error are not modelled.
\<close>

datatype out = Text string | Num nat

text \<open>
  One frame of the loop body up to the \<^verbatim>\<open>switch\<close>: the byte \<^verbatim>\<open>b1\<close> was read;
  the result is what is printed, the state of the filter and of the generator, and the
  reader, or the panic of a failed read of \<^verbatim>\<open>b2\<close>.
\<close>

definition sample :: "bool \<Rightarrow> CommonChunkHeader \<Rightarrow> byte \<Rightarrow> dither_state \<Rightarrow> rand \<Rightarrow> reader
    \<Rightarrow> error + (out list \<times> dither_state \<times> rand \<times> reader)" where
  "sample applyDither common b1 st g r1 =
     (if SampleSize common = 8 then Inr ([Num (unat b1)], st, g, r1)
      else if SampleSize common = 16 then
        (case ReadByte r1 of
           (None, _) \<Rightarrow> Inl IOError
         | (Some b2, r2) \<Rightarrow>
             let v = readInt16 b1 b2 in
             if applyDither
             then
               let (d, st', g') = dither (of_int (sint v) / 256 + 128) False st g
               in Inr ([Num (unat (uint16 (filter' d)))], st', g', r2)
             else Inr ([Num (unat (uint16 (filter' (of_int (sint v) / 256 + 128))))], st, g, r2))
      else Inr ([], st, g, r1))"

text \<open>
  The loop \<^verbatim>\<open>for i := uint32(0); i < common.NumSampleFrames; i += 1\<close>. The comparison
  \<^verbatim>\<open>i < common.NumSampleFrames - 1\<close> is on \<^verbatim>\<open>uint32\<close>, the bound
  \<^verbatim>\<open>common.NumChannels - 1\<close> of the inner loop on \<^verbatim>\<open>int16\<close>; the inner loop reads one
  byte per round and ignores the error.
\<close>

function sampleLoop :: "bool \<Rightarrow> CommonChunkHeader \<Rightarrow> nat \<Rightarrow> dither_state \<Rightarrow> rand \<Rightarrow> reader
    \<Rightarrow> out list \<times> error option" where
  "sampleLoop applyDither common i st g r =
     (if i < unat (NumSampleFrames common) then
        (case ReadByte r of
           (None, _) \<Rightarrow> ([], Some IOError)
         | (Some b1, r1) \<Rightarrow>
             (case sample applyDither common b1 st g r1 of
                Inl e \<Rightarrow> ([], Some e)
              | Inr (printed, st', g', r2) \<Rightarrow>
                  let sep = (if i < unat (NumSampleFrames common - 1) then [Text '', ''] else []);
                      r3 = skipLoop (nat (sint (NumChannels common - 1))) r2;
                      (rest, e) = sampleLoop applyDither common (i + 1) st' g' r3
                  in (printed @ sep @ rest, e)))
      else ([], None))"
  by pat_completeness auto
termination
  by (relation "measure (\<lambda>(applyDither, common, i, st, g, r). unat (NumSampleFrames common) - i)")
    auto

declare sampleLoop.simps [simp del]

text \<open>
  The reduction without dither as the specification words it:
  \<open>clamp(floor(s / 256.0 + 128.0 + 0.5), 0, 255)\<close>.
\<close>

definition clamp_spec :: "int \<Rightarrow> int \<Rightarrow> int \<Rightarrow> int" where
  "clamp_spec x lo hi = (if x < lo then lo else if x > hi then hi else x)"

definition nominal_spec :: "int \<Rightarrow> int" where
  "nominal_spec s = clamp_spec \<lfloor>of_int s / 256 + 128 + 1 / 2 :: rat\<rfloor> 0 255"

subsection \<open>The name of the array\<close>

text \<open>
  \<^verbatim>\<open>path.Ext\<close> of the Go library: the suffix beginning at the final dot in the final
  slash-separated element of the path, empty if there is no dot. Its loop runs \<open>i\<close>
  from the last index down while \<^verbatim>\<open>path[i] != '/'\<close>; \<open>Ext_loop p n\<close> is the loop at
  \<open>i = n - 1\<close>.
\<close>

fun Ext_loop :: "string \<Rightarrow> nat \<Rightarrow> string" where
  "Ext_loop p 0 = []"
| "Ext_loop p (Suc i) =
     (if p ! i = CHR ''/'' then []
      else if p ! i = CHR ''.'' then drop i p
      else Ext_loop p i)"

definition Ext :: "string \<Rightarrow> string" where
  "Ext p = Ext_loop p (length p)"

definition arrayName :: "string \<Rightarrow> string" where
  "arrayName arg = take (length arg - length (Ext arg)) arg"

subsection \<open>The program\<close>

text \<open>
  \<^verbatim>\<open>main\<close> from \<^verbatim>\<open>os.Open\<close> on: \<open>arg\<close> is the path \<^verbatim>\<open>args[0]\<close>, \<open>file\<close> the content
  of the file, \<open>None\<close> if it cannot be opened. The result is standard output and the
  panic that ended the run, if any.
\<close>

definition newline :: string where
  "newline = [CHR 0x0A]"

definition main :: "bool \<Rightarrow> string \<Rightarrow> byte list option \<Rightarrow> rand \<Rightarrow> out list \<times> error option" where
  "main applyDither arg file g =
     (case file of
        None \<Rightarrow> ([], Some IOError)
      | Some r \<Rightarrow>
          (case parseHeaders r of
             Inl e \<Rightarrow> ([], Some e)
           | Inr (common, r') \<Rightarrow>
               let (printed, e) = sampleLoop applyDither common 0 dither_init g r'
               in (Text (''prog_uchar '' @ arrayName arg @ ''[] PROGMEM = {'' @ newline)
                     # printed
                     @ (case e of None \<Rightarrow> [Text (''};'' @ newline)] | Some _ \<Rightarrow> []),
                   e)))"

text \<open>The text of standard output: integers are printed in decimal.\<close>

definition digit :: "nat \<Rightarrow> char" where
  "digit d = ''0123456789'' ! d"

fun decimal :: "nat \<Rightarrow> string" where
  "decimal n =
     (if n < 10 then [digit n]
      else decimal (n div 10) @ [digit (n mod 10)])"

declare decimal.simps [simp del]

fun render :: "out list \<Rightarrow> string" where
  "render [] = []"
| "render (Text s # os) = s @ render os"
| "render (Num n # os) = decimal n @ render os"

subsection \<open>Example files\<close>

text \<open>
  A minimal AIFF file: the container chunk, a common chunk (sample rate 44100) and a
  sound data chunk with zero offset and block size, followed by the sample bytes.
\<close>

definition example_aiff :: "byte \<Rightarrow> byte \<Rightarrow> byte \<Rightarrow> byte list \<Rightarrow> byte list" where
  "example_aiff numChannels numSampleFrames sampleSize samples =
     gostring ''FORM'' @ [0, 0, 0, 46 + of_nat (length samples)] @ gostring ''AIFF''
     @ gostring ''COMM'' @ [0, 0, 0, 18]
     @ [0, numChannels] @ [0, 0, 0, numSampleFrames] @ [0, sampleSize]
     @ [0x40, 0x0E, 0xAC, 0x44, 0, 0, 0, 0, 0, 0]
     @ gostring ''SSND'' @ [0, 0, 0, 8 + of_nat (length samples)] @ [0, 0, 0, 0, 0, 0, 0, 0]
     @ samples"

text \<open>
  A minimal AIFF-C file, one channel of 8-bit samples, with the given compression type
  and an empty compression name (a count byte and a pad byte).
\<close>

definition example_aifc :: "string \<Rightarrow> byte \<Rightarrow> byte list \<Rightarrow> byte list" where
  "example_aifc compressionType numSampleFrames samples =
     gostring ''FORM'' @ [0, 0, 0, 52 + of_nat (length samples)] @ gostring ''AIFC''
     @ gostring ''COMM'' @ [0, 0, 0, 24]
     @ [0, 1] @ [0, 0, 0, numSampleFrames] @ [0, 8]
     @ [0x40, 0x0E, 0xAC, 0x44, 0, 0, 0, 0, 0, 0]
     @ gostring compressionType @ [0, 0]
     @ gostring ''SSND'' @ [0, 0, 0, 8 + of_nat (length samples)] @ [0, 0, 0, 0, 0, 0, 0, 0]
     @ samples"

text \<open>Two generators: one whose draws are all 0, one whose draws are all \<open>2^31 - 1\<close>.\<close>

definition rand_lo :: rand where
  "rand_lo = \<lparr>draws = (\<lambda>_. 0), pos = 0\<rparr>"

definition rand_hi :: rand where
  "rand_hi = \<lparr>draws = (\<lambda>_. 2147483647), pos = 0\<rparr>"

section \<open>Word arithmetic\<close>





section \<open>Evaluation on concrete inputs\<close>

lemmas model_defs =
  gostring_def parseHeaders_def read_AIFFChunkHeader_def ReadFull_def ID_String_def
  scanChunk.simps read_ChunkHeader_def be32_def be16_def read_CommonChunkHeader_def
  read_SoundDataChunkHeader_def main_def sampleLoop.simps sample_def ReadByte_def
  readInt16_def uint16_def filter'_def round'_def dither_def dither_xe_def dither_init_def
  DITHER_BUF_MASK_def DITHER_BUF_SIZE_def SHAPED_BS_def noise_def Int31_def MaxInt32_def
  arrayName_def Ext_def newline_def readCompression_def read_CompressionHeader_def
  skipBytes_def example_aiff_def example_aifc_def rand_lo_def rand_hi_def
  fl_def fadd_def fsub_def fmul_def fdiv_def ilog2_def rne_def pow2_def bits.simps

text \<open>
  Evaluation goes from the inside out: the weak congruence rules keep the simplifier
  from unfolding the body of a \<open>let\<close> or of a pattern match before its argument is a
  value.
\<close>

lemmas eval_congs = let_weak_cong prod.case_cong_weak

lemma floor_numeral_div: "\<lfloor>numeral a / numeral b :: rat\<rfloor> = numeral a div numeral b"
  using floor_divide_of_int_eq [of "numeral a" "numeral b", where ?'a = rat] by simp

lemma floor_neg_numeral_div:
  "\<lfloor>- (numeral a / numeral b) :: rat\<rfloor> = (- numeral a) div numeral b"
  using floor_divide_of_int_eq [of "- numeral a" "numeral b", where ?'a = rat] by simp

section \<open>Arithmetic of the reduction to 8 bits\<close>

lemma filter'_range: "0 \<le> filter' x \<and> filter' x \<le> 255"
  by (simp add: filter'_def)

lemma uint16_small:
  assumes "0 \<le> x" and "x \<le> 255"
  shows "unat (uint16 x) = nat \<lfloor>x\<rfloor>" and "unat (uint16 x) \<le> 255"
proof -
  have f0: "0 \<le> \<lfloor>x\<rfloor>" using assms(1) by simp
  have f1: "\<lfloor>x\<rfloor> \<le> 255" using assms(2) by (simp add: floor_le_iff)
  have "uint16 x = word_of_int \<lfloor>x\<rfloor>" using assms(1) by (simp add: uint16_def)
  then have "unat (uint16 x) = nat (take_bit 16 \<lfloor>x\<rfloor>)"
    by (simp add: unat_eq_nat_uint uint_word_of_int_eq)
  also have "take_bit 16 \<lfloor>x\<rfloor> = \<lfloor>x\<rfloor>"
    using f0 f1 by (simp add: take_bit_int_eq_self)
  finally show "unat (uint16 x) = nat \<lfloor>x\<rfloor>" .
  moreover have "nat \<lfloor>x\<rfloor> \<le> 255" using f1 by linarith
  ultimately show "unat (uint16 x) \<le> 255" by (simp only:)
qed

lemma uint16_filter'_le: "unat (uint16 (filter' x)) \<le> 255"
  using filter'_range [of x] by (simp add: uint16_small(2))

lemma sint16_range: "- 32768 \<le> sint (v::16 word) \<and> sint v \<le> 32767"
  using sint_ge [of v] sint_lt [of v] by simp

lemma offset_binary_range:
  fixes s :: int
  assumes "- 32768 \<le> s" and "s \<le> 32767"
  shows "0 \<le> (of_int s / 256 + 128 :: rat)" and "(of_int s / 256 + 128 :: rat) \<le> 255 + 255 / 256"
    and "\<lfloor>of_int s / 256 + 128 :: rat\<rfloor> = (s + 32768) div 256"
proof -
  have e: "(of_int s / 256 + 128 :: rat) = of_int (s + 32768) / of_int 256"
    by (simp add: field_simps)
  show "0 \<le> (of_int s / 256 + 128 :: rat)" using assms by (simp add: e)
  show "(of_int s / 256 + 128 :: rat) \<le> 255 + 255 / 256"
    using assms by (simp add: field_simps)
  show "\<lfloor>of_int s / 256 + 128 :: rat\<rfloor> = (s + 32768) div 256"
    unfolding e by (rule floor_divide_of_int_eq)
qed

lemma no_dither_value:
  fixes s :: int
  assumes "- 32768 \<le> s" and "s \<le> 32767"
  shows "unat (uint16 (filter' (of_int s / 256 + 128))) = nat \<lfloor>of_int s / 256 + 128 :: rat\<rfloor>"
proof -
  let ?x = "of_int s / 256 + 128 :: rat"
  have x0: "0 \<le> ?x" using assms by (rule offset_binary_range(1))
  have fl: "\<lfloor>?x\<rfloor> = (s + 32768) div 256" using assms by (rule offset_binary_range(3))
  have fl255: "\<lfloor>?x\<rfloor> \<le> 255" using assms by (simp add: fl)
  show ?thesis
  proof (cases "?x > 255")
    case True
    then have "255 \<le> \<lfloor>?x\<rfloor>" by (simp add: le_floor_iff)
    with fl255 have f: "\<lfloor>?x\<rfloor> = 255" by (rule order_antisym)
    have "filter' ?x = 255" using True by (simp add: filter'_def)
    then have a: "unat (uint16 (filter' ?x)) = 255"
      using uint16_small(1) [of 255] by simp
    have b: "nat \<lfloor>?x\<rfloor> = 255" unfolding f by simp
    show ?thesis by (simp only: a b)
  next
    case False
    then have "filter' ?x = ?x" using x0 by (simp add: filter'_def)
    moreover have "?x \<le> 255" using False by simp
    ultimately show ?thesis using uint16_small(1) [of ?x] x0 by (simp only:)
  qed
qed

section \<open>The chunk scanner skips padded payloads\<close>



section \<open>The reduction without dither\<close>

text \<open>
  C1 (as amended). For every 16-bit sample \<open>s\<close> processed with dithering disabled, the
  value printed is \<open>floor(s / 256 + 128)\<close>, which is \<open>(s + 32768) div 256\<close> and lies
  in 0..255: the fraction is dropped, nothing is added before it is dropped, and the
  clamp never changes the value. The filter state and the generator are left as they
  are.
\<close>

theorem no_dither_truncates:
  assumes "SampleSize common = 16"
  shows "sample False common b1 st g (b2 # r) =
           Inr ([Num (nat \<lfloor>of_int (sint (readInt16 b1 b2)) / 256 + 128 :: rat\<rfloor>)], st, g, r)
    \<and> \<lfloor>of_int (sint (readInt16 b1 b2)) / 256 + 128 :: rat\<rfloor> = (sint (readInt16 b1 b2) + 32768) div 256
    \<and> nat \<lfloor>of_int (sint (readInt16 b1 b2)) / 256 + 128 :: rat\<rfloor> \<le> 255"
proof -
  let ?s = "sint (readInt16 b1 b2)"
  have r: "- 32768 \<le> ?s" "?s \<le> 32767" using sint16_range [of "readInt16 b1 b2"] by simp_all
  have v: "unat (uint16 (filter' (of_int ?s / 256 + 128))) = nat \<lfloor>of_int ?s / 256 + 128 :: rat\<rfloor>"
    using r by (rule no_dither_value)
  have fl: "\<lfloor>of_int ?s / 256 + 128 :: rat\<rfloor> = (?s + 32768) div 256"
    using r by (rule offset_binary_range(3))
  have "sample False common b1 st g (b2 # r) =
      Inr ([Num (unat (uint16 (filter' (of_int ?s / 256 + 128))))], st, g, r)"
    using assms by (simp add: sample_def ReadByte_def)
  then have "sample False common b1 st g (b2 # r) =
      Inr ([Num (nat \<lfloor>of_int ?s / 256 + 128 :: rat\<rfloor>)], st, g, r)"
    by (simp only: v)
  moreover have "nat \<lfloor>of_int ?s / 256 + 128 :: rat\<rfloor> \<le> 255"
    unfolding fl using r by linarith
  ultimately show ?thesis using fl by blast
qed

theorem no_dither_truncates_witness:
  "SampleSize \<lparr>NumChannels = 1, NumSampleFrames = 1, SampleSize = 16,
       SampleRate = \<lparr>Exponent = 0, HiMant = 0, LoMant = 0\<rparr>\<rparr> = 16
   \<and> sample False \<lparr>NumChannels = 1, NumSampleFrames = 1, SampleSize = 16,
       SampleRate = \<lparr>Exponent = 0, HiMant = 0, LoMant = 0\<rparr>\<rparr> 0xFF dither_init rand_lo [0x80, 7]
     = Inr ([Num 127], dither_init, rand_lo, [7])"
  using no_dither_truncates [of "\<lparr>NumChannels = 1, NumSampleFrames = 1, SampleSize = 16,
       SampleRate = \<lparr>Exponent = 0, HiMant = 0, LoMant = 0\<rparr>\<rparr>" "0xFF" dither_init rand_lo "0x80" "[7]"]
  by (simp add: readInt16_def be16_def floor_neg_numeral_div floor_numeral_div)

text \<open>
  The claim as stated, with rounding by \<open>floor(x + 0.5)\<close>, fails at the sample 128
  (bytes \<open>0x00 0x80\<close>): the program prints 128, the formula gives 129.
\<close>

theorem nominal_rounding_counterexample:
  "main False ''a.aiff'' (Some (example_aiff 1 1 16 [0x00, 0x80])) rand_lo
     = ([Text (''prog_uchar a[] PROGMEM = {'' @ newline), Num 128, Text (''};'' @ newline)], None)
   \<and> sint (readInt16 0x00 0x80) = 128
   \<and> nominal_spec 128 = 129"
  by (simp add: model_defs nominal_spec_def clamp_spec_def floor_numeral_div)

section \<open>The output does not depend on the random generator\<close>

text \<open>
  The loop body calls \<^verbatim>\<open>dither\<close> with \<^verbatim>\<open>addNoise\<close> false, so no frame draws from the
  generator, and the loop gives the same output and the same outcome from any two
  generators.
\<close>

lemma sample_rand:
  "sample d c b st g r =
     (case sample d c b st g0 r of
        Inl e \<Rightarrow> Inl e
      | Inr (p, st', _, r') \<Rightarrow> Inr (p, st', g, r'))"
  by (cases r) (simp_all add: sample_def dither_def ReadByte_def Let_def)

lemma sampleLoop_rand: "sampleLoop d c i st g r = sampleLoop d c i st g' r"
proof (induction n \<equiv> "unat (NumSampleFrames c) - i" arbitrary: i st g g' r)
  case 0
  then have "\<not> i < unat (NumSampleFrames c)" by simp
  then show ?case by (simp add: sampleLoop.simps)
next
  case (Suc n)
  then have lt: "i < unat (NumSampleFrames c)" by simp
  show ?case
  proof (cases "ReadByte r")
    case (Pair ob r1)
    show ?thesis
    proof (cases ob)
      case None
      with Pair lt show ?thesis by (simp add: sampleLoop.simps)
    next
      case (Some b1)
      show ?thesis
      proof (cases "sample d c b1 st g r1")
        case (Inl e)
        then have "sample d c b1 st g' r1 = Inl e"
          using sample_rand [of d c b1 st g' r1 g] by simp
        with Inl Pair Some lt show ?thesis
          by (simp add: sampleLoop.simps [of d c i])
      next
        case (Inr y)
        obtain p st' g1 r2 where y: "y = (p, st', g1, r2)" by (cases y) auto
        have s1: "sample d c b1 st g r1 = Inr (p, st', g, r2)"
          using Inr y sample_rand [of d c b1 st g r1 g] by simp
        have s2: "sample d c b1 st g' r1 = Inr (p, st', g', r2)"
          using Inr y sample_rand [of d c b1 st g' r1 g] by simp
        have n: "n = unat (NumSampleFrames c) - (i + 1)" using Suc.hyps(2) by simp
        have ih: "sampleLoop d c (i + 1) st' g (skipLoop (nat (sint (NumChannels c - 1))) r2)
            = sampleLoop d c (i + 1) st' g' (skipLoop (nat (sint (NumChannels c - 1))) r2)"
          using n by (rule Suc.hyps(1))
        show ?thesis
          using Pair Some lt s1 s2 ih
          by (simp add: sampleLoop.simps [of d c i] Let_def)
      qed
    qed
  qed
qed

text \<open>
  C10. With the dither flag enabled, standard output and the outcome of the run are a
  function of the path and of the file alone: two runs that differ only in the random
  generator (the seed and what was drawn from it) give the same result.
\<close>

theorem output_independent_of_rand:
  "main True arg file g1 = main True arg file g2"
proof (cases "file")
  case None
  then show ?thesis by (simp add: main_def)
next
  case (Some r)
  show ?thesis
  proof (cases "parseHeaders r")
    case (Inl e)
    with Some show ?thesis by (simp add: main_def)
  next
    case (Inr y)
    obtain common r' where y: "y = (common, r')" by (cases y) auto
    have "sampleLoop True common 0 dither_init g1 r' = sampleLoop True common 0 dither_init g2 r'"
      by (rule sampleLoop_rand)
    with Some Inr y show ?thesis by (simp add: main_def)
  qed
qed

theorem output_independent_of_rand_witness:
  "main True ''a.aiff'' (Some (example_aiff 1 2 16 [0x12, 0x34, 0xFF, 0x80])) rand_lo
     = main True ''a.aiff'' (Some (example_aiff 1 2 16 [0x12, 0x34, 0xFF, 0x80])) rand_hi
   \<and> fst (main True ''a.aiff'' (Some (example_aiff 1 2 16 [0x12, 0x34, 0xFF, 0x80])) rand_hi)
     = [Text (''prog_uchar a[] PROGMEM = {'' @ newline), Num 146, Text '', '', Num 128,
        Text (''};'' @ newline)]"
  using output_independent_of_rand [of "''a.aiff''" "Some (example_aiff 1 2 16 [0x12, 0x34, 0xFF, 0x80])"
      rand_lo rand_hi]
  by (simp add: model_defs floor_numeral_div floor_neg_numeral_div Let_def cong: eval_congs)

section \<open>The reduction with dither\<close>

text \<open>
  The five weights as 64-bit floats: the numerators over \<open>2^51\<close>, \<open>2^50\<close>, \<open>2^51\<close>,
  \<open>2^52\<close> and \<open>2^51\<close>.
\<close>

lemma SHAPED_BS_values:
  "SHAPED_BS =
     [4577909021222109 / 2251799813685248, - (2437573298314281 / 1125899906842624),
      4411275835009401 / 2251799813685248, - (7160723407519089 / 4503599627370496),
      1384631705435059 / 2251799813685248]"
  by (simp add: model_defs floor_numeral_div floor_neg_numeral_div Let_def cong: eval_congs)

text \<open>
  C2 (as amended). When the dither flag is set, for every 16-bit sample the value that is
  rounded is the error-fed-back value \<open>xe\<close> alone: the result is \<open>round(xe)\<close>, the
  error \<open>xe - round(xe)\<close> goes into the history at the next index, no noise is added
  and nothing is drawn from the generator. Here \<open>xe\<close> is the sample value plus the five
  weighted history entries, each product and each sum rounded to a 64-bit float.
\<close>

theorem dither_rounds_without_noise:
  assumes "SampleSize common = 16"
  shows "sample True common b1 st g (b2 # r) =
     (let xe = dither_xe (of_int (sint (readInt16 b1 b2)) / 256 + 128) st;
          result = round' xe;
          idx' = (idx st + 1) AND DITHER_BUF_MASK
      in Inr ([Num (unat (uint16 (filter' result)))],
              \<lparr>buffer = (buffer st)[unat idx' := fsub xe result], idx = idx'\<rparr>, g, r))"
  using assms by (simp add: sample_def ReadByte_def dither_def Let_def)

text \<open>
  The witness is the sixth frame of the file with the samples 34, 6, 185, 192, 36, 27:
  the history holds the errors of the first five frames, the sample 27 gives
  \<open>xe = 8972014882652161 / 2^46\<close>, just above 127.5, and 128 is printed (in exact
  arithmetic the sum would fall just below 127.5).
\<close>

theorem dither_rounds_without_noise_witness:
  "SampleSize \<lparr>NumChannels = 1, NumSampleFrames = 6, SampleSize = 16,
       SampleRate = \<lparr>Exponent = 0, HiMant = 0, LoMant = 0\<rparr>\<rparr> = 16
   \<and> sample True \<lparr>NumChannels = 1, NumSampleFrames = 6, SampleSize = 16,
       SampleRate = \<lparr>Exponent = 0, HiMant = 0, LoMant = 0\<rparr>\<rparr> 0x00
       \<lparr>buffer = [0, 17 / 128, 2581172265681 / 8796093022208, 278761450733 / 8796093022208,
                  483014821817 / 1099511627776, 11568484370119 / 35184372088832, 0, 0],
        idx = 5\<rparr>
       rand_hi [0x1B, 7]
     = Inr ([Num 128],
            \<lparr>buffer = [0, 17 / 128, 2581172265681 / 8796093022208, 278761450733 / 8796093022208,
                  483014821817 / 1099511627776, 11568484370119 / 35184372088832,
                  - (35184372088831 / 70368744177664), 0],
             idx = 6\<rparr>,
            rand_hi, [7])
   \<and> dither_xe (27 / 256 + 128)
       \<lparr>buffer = [0, 17 / 128, 2581172265681 / 8796093022208, 278761450733 / 8796093022208,
                  483014821817 / 1099511627776, 11568484370119 / 35184372088832, 0, 0],
        idx = 5\<rparr>
     = 8972014882652161 / 70368744177664
   \<and> fst (main True ''a.aiff''
        (Some (example_aiff 1 6 16
           [0x00, 0x22, 0x00, 0x06, 0x00, 0xB9, 0x00, 0xC0, 0x00, 0x24, 0x00, 0x1B])) rand_hi)
     = [Text (''prog_uchar a[] PROGMEM = {'' @ newline), Num 128, Text '', '', Num 128, Text '', '',
        Num 129, Text '', '', Num 128, Text '', '', Num 129, Text '', '', Num 128,
        Text (''};'' @ newline)]"
proof -
  let ?c = "\<lparr>NumChannels = 1, NumSampleFrames = 6, SampleSize = 16,
       SampleRate = \<lparr>Exponent = 0, HiMant = 0, LoMant = 0\<rparr>\<rparr>"
  let ?st = "\<lparr>buffer = [0, 17 / 128, 2581172265681 / 8796093022208, 278761450733 / 8796093022208,
                  483014821817 / 1099511627776, 11568484370119 / 35184372088832, 0, 0],
        idx = 5\<rparr>"
  have h: "SampleSize ?c = 16" by simp
  have xe: "dither_xe (27 / 256 + 128) ?st = 8972014882652161 / 70368744177664"
    by (simp add: model_defs floor_numeral_div floor_neg_numeral_div Let_def cong: eval_congs)
  have s: "sample True ?c 0x00 ?st rand_hi [0x1B, 7]
     = Inr ([Num 128],
            \<lparr>buffer = [0, 17 / 128, 2581172265681 / 8796093022208, 278761450733 / 8796093022208,
                  483014821817 / 1099511627776, 11568484370119 / 35184372088832,
                  - (35184372088831 / 70368744177664), 0],
             idx = 6\<rparr>,
            rand_hi, [7])"
    using dither_rounds_without_noise [OF h, of "0x00" ?st rand_hi "0x1B" "[7]"]
    by (simp add: model_defs floor_numeral_div floor_neg_numeral_div Let_def cong: eval_congs)
  have m: "fst (main True ''a.aiff''
        (Some (example_aiff 1 6 16
           [0x00, 0x22, 0x00, 0x06, 0x00, 0xB9, 0x00, 0xC0, 0x00, 0x24, 0x00, 0x1B])) rand_hi)
     = [Text (''prog_uchar a[] PROGMEM = {'' @ newline), Num 128, Text '', '', Num 128, Text '', '',
        Num 129, Text '', '', Num 128, Text '', '', Num 129, Text '', '', Num 128,
        Text (''};'' @ newline)]"
    by (simp add: model_defs floor_numeral_div floor_neg_numeral_div Let_def cong: eval_congs)
  from h s xe m show ?thesis by (simp only: simp_thms)
qed

text \<open>
  The claim as stated fails for a file with the single sample 0 and a generator whose
  draws are all \<open>2^31 - 1\<close>: the error-fed-back value is 128 and the two draws add
  up to a noise of 1, so rounding the sum would give 129 (as \<^verbatim>\<open>dither\<close> does when it
  is called with \<^verbatim>\<open>addNoise\<close> true), but the program prints 128.
\<close>

theorem dither_noise_counterexample:
  "main True ''a.aiff'' (Some (example_aiff 1 1 16 [0x00, 0x00])) rand_hi
     = ([Text (''prog_uchar a[] PROGMEM = {'' @ newline), Num 128, Text (''};'' @ newline)], None)
   \<and> dither_xe 128 dither_init = 128
   \<and> fadd (fst (noise rand_hi)) (fst (noise (snd (noise rand_hi)))) = 1
   \<and> round' (fadd 128 1) = 129
   \<and> fst (dither 128 True dither_init rand_hi) = 129"
  by (simp add: model_defs floor_numeral_div floor_neg_numeral_div Let_def cong: eval_congs)

section \<open>Every printed value is a byte\<close>

text \<open>
  An 8-bit sample is printed as the byte that was read. A 16-bit sample goes through
  \<^verbatim>\<open>filter\<close>, which clamps any value to 0..255 before the conversion to
  \<^verbatim>\<open>uint16\<close>, with or without dither.
\<close>

lemma sample_values:
  assumes "sample d c b1 st g r1 = Inr (p, st', g', r2)"
  shows "\<forall>n. Num n \<in> set p \<longrightarrow> n \<le> 255"
proof -
  have b: "unat b1 \<le> 255" using unsigned_less [of b1, where ?'a = nat] by simp
  show ?thesis
  proof (cases "SampleSize c = 8")
    case True
    with assms b show ?thesis by (auto simp: sample_def)
  next
    case False
    show ?thesis
    proof (cases "SampleSize c = 16")
      case ns: False
      with False assms show ?thesis by (auto simp: sample_def)
    next
      case True
      show ?thesis
      proof (cases r1)
        case Nil
        with True False assms show ?thesis by (simp add: sample_def ReadByte_def)
      next
        case (Cons b2 r)
        with True False assms show ?thesis
          by (cases d) (auto simp: sample_def ReadByte_def Let_def uint16_filter'_le split: prod.splits)
      qed
    qed
  qed
qed

lemma sampleLoop_values: "\<forall>n. Num n \<in> set (fst (sampleLoop d c i st g r)) \<longrightarrow> n \<le> 255"
proof (induction k \<equiv> "unat (NumSampleFrames c) - i" arbitrary: i st g r)
  case 0
  then have "\<not> i < unat (NumSampleFrames c)" by simp
  then show ?case by (simp add: sampleLoop.simps)
next
  case (Suc k)
  then have lt: "i < unat (NumSampleFrames c)" by simp
  show ?case
  proof (cases "ReadByte r")
    case (Pair ob r1)
    show ?thesis
    proof (cases ob)
      case None
      with Pair lt show ?thesis by (simp add: sampleLoop.simps)
    next
      case (Some b1)
      show ?thesis
      proof (cases "sample d c b1 st g r1")
        case (Inl e)
        with Pair Some lt show ?thesis by (simp add: sampleLoop.simps [of d c i])
      next
        case (Inr y)
        obtain p st' g1 r2 where y: "y = (p, st', g1, r2)" by (cases y) auto
        have pv: "\<forall>n. Num n \<in> set p \<longrightarrow> n \<le> 255"
          using Inr y by (auto dest: sample_values)
        have k: "k = unat (NumSampleFrames c) - (i + 1)" using Suc.hyps(2) by simp
        let ?rec = "sampleLoop d c (i + 1) st' g1 (skipLoop (nat (sint (NumChannels c - 1))) r2)"
        have ih: "\<forall>n. Num n \<in> set (fst ?rec) \<longrightarrow> n \<le> 255"
          using k by (rule Suc.hyps(1))
        have "fst (sampleLoop d c i st g r) =
            p @ (if i < unat (NumSampleFrames c - 1) then [Text '', ''] else []) @ fst ?rec"
          using Pair Some lt Inr y
          by (simp add: sampleLoop.simps [of d c i] Let_def split: prod.splits)
        with pv ih show ?thesis by auto
      qed
    qed
  qed
qed

text \<open>
  C6. Every integer that a run prints lies in 0..255, for 8-bit and 16-bit input alike
  and whether or not the dither flag is set, also in the output of a run that ends in a
  panic.
\<close>

theorem output_values_in_byte_range:
  "\<forall>n. Num n \<in> set (fst (main applyDither arg file g)) \<longrightarrow> n \<le> 255"
proof (cases "file")
  case None
  then show ?thesis by (simp add: main_def)
next
  case (Some r)
  show ?thesis
  proof (cases "parseHeaders r")
    case (Inl e)
    with Some show ?thesis by (simp add: main_def)
  next
    case (Inr y)
    obtain common r' where y: "y = (common, r')" by (cases y) auto
    have "\<forall>n. Num n \<in> set (fst (sampleLoop applyDither common 0 dither_init g r')) \<longrightarrow> n \<le> 255"
      by (rule sampleLoop_values)
    with Some Inr y show ?thesis
      by (auto simp: main_def Let_def split: prod.splits option.splits)
  qed
qed

theorem output_values_in_byte_range_witness:
  "Num 255 \<in> set (fst (main True ''a.aiff'' (Some (example_aiff 1 3 16 [0x7F, 0xFF, 0x7F, 0xFF, 0x80, 0x00])) rand_hi))
   \<and> Num 0 \<in> set (fst (main True ''a.aiff'' (Some (example_aiff 1 3 16 [0x7F, 0xFF, 0x7F, 0xFF, 0x80, 0x00])) rand_hi))
   \<and> (255::nat) \<le> 255"
  using output_values_in_byte_range [of True "''a.aiff''"
      "Some (example_aiff 1 3 16 [0x7F, 0xFF, 0x7F, 0xFF, 0x80, 0x00])" rand_hi, THEN spec, of 255]
  by (simp add: model_defs floor_numeral_div floor_neg_numeral_div Let_def cong: eval_congs)

section \<open>Dropping the other channels\<close>

text \<open>
  C3. The claim: after the sample of the first channel, the reader discards one sample of
  the same width for each other channel, so that a 2-channel 16-bit file with the
  channel-0 samples 256 and -256 gives 129 and 127. The inner loop of the program
  reads one byte for each other channel whatever the sample size. With 16-bit samples
  the second frame is therefore read one byte late: in the file below (frames
  \<open>01 00 | 00 00\<close> and \<open>FF 00 | 00 00\<close>) the second value is decoded from the bytes
  \<open>00 FF\<close>, which is 255, and the program prints 129 and 128.
\<close>

theorem two_channel_16bit_misaligned:
  "main False ''a.aiff'' (Some (example_aiff 2 2 16 [0x01, 0x00, 0x00, 0x00, 0xFF, 0x00, 0x00, 0x00])) rand_lo
     = ([Text (''prog_uchar a[] PROGMEM = {'' @ newline), Num 129, Text '', '', Num 128,
         Text (''};'' @ newline)], None)
   \<and> render (fst (main False ''a.aiff''
          (Some (example_aiff 2 2 16 [0x01, 0x00, 0x00, 0x00, 0xFF, 0x00, 0x00, 0x00])) rand_lo))
       = ''prog_uchar a[] PROGMEM = {\<newline>129, 128};\<newline>''
   \<and> sint (readInt16 0x01 0x00) = 256 \<and> sint (readInt16 0xFF 0x00) = - 256
   \<and> sint (readInt16 0x00 0xFF) = 255"
  by (simp add: model_defs floor_numeral_div floor_neg_numeral_div Let_def decimal.simps digit_def)

section \<open>Panics\<close>

text \<open>
  The chunk scanner and the sample loop fail with a read error only; every panic with a
  message is raised by the checks of \<open>parseHeaders\<close>.
\<close>

lemma scanChunk_error: "scanChunk r t = Inl e \<Longrightarrow> e = IOError"
proof (induction r t rule: scanChunk.induct)
  case (1 r chunkId)
  show ?case
  proof (cases "read_ChunkHeader r")
    case None
    with "1.prems" show ?thesis by (simp add: scanChunk.simps [of r])
  next
    case (Some y)
    obtain chunk r' where y: "y = (chunk, r')" by (cases y) auto
    show ?thesis
    proof (cases "ID_String (ChunkId chunk) = chunkId")
      case True
      with Some y "1.prems" show ?thesis by (simp add: scanChunk.simps [of r])
    next
      case False
      with Some y "1.prems"
      have "scanChunk (skipBytes r' ((Size chunk + 1) AND NOT 1)) chunkId = Inl e"
        by (simp add: scanChunk.simps [of r])
      with "1.IH" [OF Some y [symmetric] False] show ?thesis by simp
    qed
  qed
qed

lemma sample_error: "sample d c b st g r = Inl e \<Longrightarrow> e = IOError"
  by (cases r) (auto simp: sample_def ReadByte_def Let_def split: if_splits prod.splits)

lemma sampleLoop_error: "snd (sampleLoop d c i st g r) = Some e \<Longrightarrow> e = IOError"
proof (induction k \<equiv> "unat (NumSampleFrames c) - i" arbitrary: i st g r)
  case 0
  then have "\<not> i < unat (NumSampleFrames c)" by simp
  with "0.prems" show ?case by (simp add: sampleLoop.simps)
next
  case (Suc k)
  then have lt: "i < unat (NumSampleFrames c)" by simp
  show ?case
  proof (cases "ReadByte r")
    case (Pair ob r1)
    show ?thesis
    proof (cases ob)
      case None
      with Pair lt Suc.prems show ?thesis by (simp add: sampleLoop.simps)
    next
      case (Some b1)
      show ?thesis
      proof (cases "sample d c b1 st g r1")
        case (Inl e')
        then have "e' = IOError" by (rule sample_error)
        with Inl Pair Some lt Suc.prems show ?thesis by (simp add: sampleLoop.simps [of d c i])
      next
        case (Inr y)
        obtain p st' g1 r2 where y: "y = (p, st', g1, r2)" by (cases y) auto
        have k: "k = unat (NumSampleFrames c) - (i + 1)" using Suc.hyps(2) by simp
        let ?rec = "sampleLoop d c (i + 1) st' g1 (skipLoop (nat (sint (NumChannels c - 1))) r2)"
        have "snd (sampleLoop d c i st g r) = snd ?rec"
          using Pair Some lt Inr y
          by (simp add: sampleLoop.simps [of d c i] Let_def split: prod.splits)
        with Suc.prems have "snd ?rec = Some e" by simp
        with k show ?thesis by (rule Suc.hyps(1))
      qed
    qed
  qed
qed

section \<open>Standard output of a failed run\<close>

text \<open>
  C4 (as amended). When a run fails, either the failure came before the sample loop (the
  file could not be opened, or parsing the headers panicked) and nothing was written to
  standard output, or it is a read error inside the sample loop and standard output
  holds the first line of the array and what the loop printed before the error, without
  the closing line.
\<close>

theorem stdout_on_failure:
  assumes "snd (main applyDither arg file g) = Some e"
  shows "(fst (main applyDither arg file g) = []
            \<and> (file = None \<or> (\<exists>r. file = Some r \<and> parseHeaders r = Inl e)))
       \<or> (e = IOError
            \<and> (\<exists>r common r' printed.
                  file = Some r \<and> parseHeaders r = Inr (common, r')
                  \<and> sampleLoop applyDither common 0 dither_init g r' = (printed, Some IOError)
                  \<and> fst (main applyDither arg file g)
                      = Text (''prog_uchar '' @ arrayName arg @ ''[] PROGMEM = {'' @ newline) # printed))"
proof (cases "file")
  case None
  then show ?thesis by (simp add: main_def)
next
  case (Some r)
  show ?thesis
  proof (cases "parseHeaders r")
    case (Inl e')
    with Some assms show ?thesis by (simp add: main_def)
  next
    case (Inr y)
    obtain common r' where y: "y = (common, r')" by (cases y) auto
    obtain printed oe where l: "sampleLoop applyDither common 0 dither_init g r' = (printed, oe)"
      by (cases "sampleLoop applyDither common 0 dither_init g r'") auto
    have oe: "oe = Some e" using assms Some Inr y l by (simp add: main_def)
    then have "snd (sampleLoop applyDither common 0 dither_init g r') = Some e" using l by simp
    then have e: "e = IOError" by (rule sampleLoop_error)
    have "fst (main applyDither arg file g)
        = Text (''prog_uchar '' @ arrayName arg @ ''[] PROGMEM = {'' @ newline) # printed"
      using Some Inr y l oe by (simp add: main_def)
    with Some Inr y l oe e show ?thesis by simp
  qed
qed

theorem stdout_on_failure_witness:
  "snd (main False ''a.aiff'' (Some (example_aiff 1 2 16 [0x01, 0x00, 0x05])) rand_lo) = Some IOError
   \<and> fst (main False ''a.aiff'' (Some (example_aiff 1 2 16 [0x01, 0x00, 0x05])) rand_lo)
       = [Text (''prog_uchar a[] PROGMEM = {'' @ newline), Num 129, Text '', '']"
  using stdout_on_failure [of False "''a.aiff''" "Some (example_aiff 1 2 16 [0x01, 0x00, 0x05])"
      rand_lo IOError]
  by (simp add: model_defs floor_numeral_div floor_neg_numeral_div Let_def)

text \<open>
  The claim as stated fails for a one-channel 8-bit file that announces two frames and
  holds one sample byte: the run ends in the read error of the second frame after the
  first line, the first value and a separator have been written.
\<close>

theorem partial_output_counterexample:
  "main False ''foo.aiff'' (Some (example_aiff 1 2 8 [10])) rand_lo
     = ([Text (''prog_uchar foo[] PROGMEM = {'' @ newline), Num 10, Text '', ''], Some IOError)"
  by (simp add: model_defs Let_def)

section \<open>The compression type of an AIFC file\<close>

lemma take4_nth3: "take 4 xs = [a, b, c, d] \<Longrightarrow> xs ! 3 = d"
  using nth_take [of 3 4 xs] by simp

text \<open>
  C5 (as amended). For an AIFC-form input whose common chunk and compression header can
  be read, the run fails with the panic "must be a raw PCM", before the sound data chunk
  is looked for and with nothing on standard output, if and only if the compression type
  is not \<^verbatim>\<open>"raw "\<close>. That tag is the only one accepted: \<^verbatim>\<open>"NONE"\<close> is rejected
  like any other.
\<close>

theorem compression_tag_must_be_raw:
  assumes "read_AIFFChunkHeader r0 = Some (header, r1)"
    and "ID_String (ChunkId header) = gostring ''FORM''"
    and "ID_String (FormType header) = gostring ''AIFC''"
    and "scanChunk r1 (gostring ''COMM'') = Inr r2"
    and "read_CommonChunkHeader r2 = Some (common, r3)"
    and "read_CompressionHeader r3 = Some (compression, r4)"
  shows "(parseHeaders r0 = Inl (Panic ''Invalid file format: must be a raw PCM.''))
           = (ID_String (CompressionType compression) \<noteq> gostring ''raw '')
    \<and> (ID_String (CompressionType compression) \<noteq> gostring ''raw '' \<longrightarrow>
          main applyDither arg (Some r0) g = ([], Some (Panic ''Invalid file format: must be a raw PCM.'')))"
proof -
  have c: "FormType header ! 3 = 67"
    using assms(3) by (simp add: ID_String_def gostring_def take4_nth3)
  have ne: "gostring ''AIFC'' \<noteq> gostring ''AIFF''" by (simp add: gostring_def)
  let ?rest = "\<lambda>r4'. if SampleSize common \<noteq> 8 \<and> SampleSize common \<noteq> 16
                             then Inl (Panic ''Sample size must be 8-bit or 16-bit.'')
                             else
                               (case scanChunk r4' (gostring ''SSND'') of
                                  Inl e \<Rightarrow> Inl e
                                | Inr r5 \<Rightarrow>
                                    (case read_SoundDataChunkHeader r5 of
                                       None \<Rightarrow> Inl IOError
                                     | Some (chunk, r6) \<Rightarrow>
                                         if Offset chunk \<noteq> 0 \<or> BlockSize chunk \<noteq> 0
                                         then Inl (Panic ''Non-zero offset/blockSize is not supported.'')
                                         else Inr (common, r6)))"
  have p: "parseHeaders r0 = (case readCompression r3 of Inl e \<Rightarrow> Inl e | Inr r4' \<Rightarrow> ?rest r4')"
    using assms(1,2,3,4,5) c by (simp add: parseHeaders_def)
  have rest: "?rest r4' \<noteq> Inl (Panic ''Invalid file format: must be a raw PCM.'')" for r4'
    by (auto split: sum.splits option.splits dest: scanChunk_error)
  show ?thesis
  proof (cases "ID_String (CompressionType compression) = gostring ''raw ''")
    case True
    then obtain r4' where "readCompression r3 = Inr r4'"
      using assms(6) by (simp add: readCompression_def Let_def)
    with p rest [of r4'] True show ?thesis by simp
  next
    case False
    then have "readCompression r3 = Inl (Panic ''Invalid file format: must be a raw PCM.'')"
      using assms(6) by (simp add: readCompression_def)
    with p False show ?thesis by (simp add: main_def)
  qed
qed

theorem compression_tag_must_be_raw_witness:
  "read_CompressionHeader (drop 38 (example_aifc ''raw '' 1 [10]))
     = Some (\<lparr>CompressionType = gostring ''raw '', CompressionNameSize = 0\<rparr>,
             drop 43 (example_aifc ''raw '' 1 [10]))
   \<and> parseHeaders (example_aifc ''raw '' 1 [10]) \<noteq> Inl (Panic ''Invalid file format: must be a raw PCM.'')
   \<and> fst (main False ''a.aifc'' (Some (example_aifc ''raw '' 1 [10])) rand_lo)
       = [Text (''prog_uchar a[] PROGMEM = {'' @ newline), Num 10, Text (''};'' @ newline)]"
proof -
  let ?f = "example_aifc ''raw '' 1 [10]"
  have h1: "read_AIFFChunkHeader ?f
      = Some (\<lparr>ChunkId = gostring ''FORM'', Size = 53, FormType = gostring ''AIFC''\<rparr>, drop 12 ?f)"
    by (simp add: model_defs)
  have h2: "ID_String (ChunkId \<lparr>ChunkId = gostring ''FORM'', Size = 53, FormType = gostring ''AIFC''\<rparr>)
      = gostring ''FORM''"
    by (simp add: model_defs)
  have h3: "ID_String (FormType \<lparr>ChunkId = gostring ''FORM'', Size = 53, FormType = gostring ''AIFC''\<rparr>)
      = gostring ''AIFC''"
    by (simp add: model_defs)
  have h4: "scanChunk (drop 12 ?f) (gostring ''COMM'') = Inr (drop 20 ?f)"
    by (simp add: model_defs)
  have h5: "read_CommonChunkHeader (drop 20 ?f)
      = Some (\<lparr>NumChannels = 1, NumSampleFrames = 1, SampleSize = 8,
               SampleRate = \<lparr>Exponent = 0x400E, HiMant = 0xAC440000, LoMant = 0\<rparr>\<rparr>, drop 38 ?f)"
    by (simp add: model_defs)
  have h6: "read_CompressionHeader (drop 38 ?f)
      = Some (\<lparr>CompressionType = gostring ''raw '', CompressionNameSize = 0\<rparr>, drop 43 ?f)"
    by (simp add: model_defs)
  have m: "fst (main False ''a.aifc'' (Some ?f) rand_lo)
      = [Text (''prog_uchar a[] PROGMEM = {'' @ newline), Num 10, Text (''};'' @ newline)]"
    by (simp add: model_defs Let_def)
  have "parseHeaders ?f \<noteq> Inl (Panic ''Invalid file format: must be a raw PCM.'')"
    using compression_tag_must_be_raw [OF h1 h2 h3 h4 h5 h6, of False "''a.aifc''" rand_lo]
    by (simp add: ID_String_def gostring_def)
  with h6 m show ?thesis by (simp only: simp_thms)
qed

text \<open>
  The claim as stated fails for the tag \<^verbatim>\<open>"NONE"\<close>: the run stops at the compression
  check.
\<close>

theorem compression_none_counterexample:
  "main False ''a.aifc'' (Some (example_aifc ''NONE'' 1 [10])) rand_lo
     = ([], Some (Panic ''Invalid file format: must be a raw PCM.''))"
  by (simp add: model_defs Let_def)

section \<open>The extended-float decoder\<close>

lemma sint16_diff: "sint ((w::16 word) - numeral n) = wrap16 (sint w - sint (numeral n :: 16 word))"
  by (simp only: sint_word_diff wrap16_def signed_take_bit_eq_take_bit_shift take_bit_eq_mod) simp

lemma wrap16_id: "- 32768 \<le> k \<Longrightarrow> k < 32768 \<Longrightarrow> wrap16 k = k"
  by (simp add: wrap16_def)

text \<open>
  C8 (as amended). The decoder gives 0.0 for the all-zero input and the largest 64-bit
  float for the exponent \<open>0x7FFF\<close>. For every other input the result is the float
  \<open>hi * 2^e1 + lo * 2^e2\<close>, where \<open>e1\<close> and \<open>e2\<close> are \<open>exponent - 16383 - 31\<close> and
  \<open>exponent - 16383 - 63\<close> computed in 16-bit signed arithmetic, which wraps around. They
  are the exponents of the claim whenever the exponent field is at least -16322; below
  that (a field with the sign bit set and a small biased exponent) one or both wrap.
\<close>

theorem Float64_exponents_wrap:
  "Float64 e =
     (if Exponent e = 0 \<and> HiMant e = 0 \<and> LoMant e = 0 then F64_Zero
      else if Exponent e = 0x7fff then F64_Max
      else F64_Sum (unat (HiMant e)) (wrap16 (sint (Exponent e) - 16383 - 31))
                   (unat (LoMant e)) (wrap16 (sint (Exponent e) - 16383 - 63)))
   \<and> (- 16322 \<le> sint (Exponent e) \<longrightarrow> Float64 e = Float64_spec e)"
proof -
  let ?x = "Exponent e"
  have w1: "?x - 16383 - 31 = ?x - 16414" by simp
  have w2: "?x - 16383 - 31 - 32 = ?x - 16446" by simp
  have e1: "sint (?x - 16383 - 31) = wrap16 (sint ?x - 16383 - 31)"
    unfolding w1 by (simp add: sint16_diff)
  have e2: "sint (?x - 16383 - 31 - 32) = wrap16 (sint ?x - 16383 - 63)"
    unfolding w2 by (simp add: sint16_diff)
  have a: "Float64 e =
     (if Exponent e = 0 \<and> HiMant e = 0 \<and> LoMant e = 0 then F64_Zero
      else if Exponent e = 0x7fff then F64_Max
      else F64_Sum (unat (HiMant e)) (wrap16 (sint (Exponent e) - 16383 - 31))
                   (unat (LoMant e)) (wrap16 (sint (Exponent e) - 16383 - 63)))"
    by (simp only: Float64_def Let_def e1 e2)
  have b: "Float64 e = Float64_spec e" if r: "- 16322 \<le> sint ?x"
  proof -
    have u: "sint ?x < 32768" using sint_lt [of ?x] by simp
    have "wrap16 (sint ?x - 16383 - 31) = sint ?x - 16383 - 31"
      using r u by (intro wrap16_id) simp_all
    moreover have "wrap16 (sint ?x - 16383 - 63) = sint ?x - 16383 - 63"
      using r u by (intro wrap16_id) simp_all
    ultimately show ?thesis by (simp only: a Float64_spec_def)
  qed
  from a b show ?thesis by blast
qed

theorem Float64_exponents_wrap_witness:
  "- 16322 \<le> sint (Exponent \<lparr>Exponent = 0x400E, HiMant = 0xAC440000, LoMant = 0\<rparr>)
   \<and> Float64 \<lparr>Exponent = 0x400E, HiMant = 0xAC440000, LoMant = 0\<rparr> = F64_Sum 2890137600 (- 16) 0 (- 48)
   \<and> Float64_spec \<lparr>Exponent = 0x400E, HiMant = 0xAC440000, LoMant = 0\<rparr> = F64_Sum 2890137600 (- 16) 0 (- 48)"
  using Float64_exponents_wrap [of "\<lparr>Exponent = 0x400E, HiMant = 0xAC440000, LoMant = 0\<rparr>"]
  by (simp add: Float64_spec_def wrap16_def)

text \<open>
  The claim as stated fails for the exponent field \<open>0xBFFF\<close> (the one of -1.0), which is
  -16385 as a signed 16-bit value: the claim's exponents are -32799 and -32831, the code
  passes 32737 and 32705 to \<^verbatim>\<open>math.Pow\<close>.
\<close>

theorem Float64_exponent_counterexample:
  "sint (0xBFFF :: 16 word) = - 16385
   \<and> Float64 \<lparr>Exponent = 0xBFFF, HiMant = 0x80000000, LoMant = 0\<rparr>
       = F64_Sum 2147483648 32737 0 32705
   \<and> Float64_spec \<lparr>Exponent = 0xBFFF, HiMant = 0x80000000, LoMant = 0\<rparr>
       = F64_Sum 2147483648 (- 32799) 0 (- 32831)
   \<and> Float64 \<lparr>Exponent = 0xBFFF, HiMant = 0x80000000, LoMant = 0\<rparr>
       \<noteq> Float64_spec \<lparr>Exponent = 0xBFFF, HiMant = 0x80000000, LoMant = 0\<rparr>"
  by (simp add: Float64_def Float64_spec_def)

section \<open>The identifier of the array\<close>

text \<open>
  The extension is a suffix of the path: empty, or a dot followed by characters that are
  neither a dot nor a slash. It is empty exactly when every dot of the path is followed
  by a later slash, that is, when the last element of the path has no dot.
\<close>

lemma Ext_loop_suffix:
  "n \<le> length p \<Longrightarrow>
     Ext_loop p n = [] \<or>
     (\<exists>i<n. Ext_loop p n = drop i p \<and> p ! i = CHR ''.''
        \<and> (\<forall>j. i < j \<and> j < n \<longrightarrow> p ! j \<noteq> CHR ''.'' \<and> p ! j \<noteq> CHR ''/''))"
proof (induction n)
  case 0
  show ?case by simp
next
  case (Suc n)
  then have n: "n \<le> length p" by simp
  show ?case
  proof (cases "p ! n = CHR ''/''")
    case True
    then show ?thesis by simp
  next
    case False
    show ?thesis
    proof (cases "p ! n = CHR ''.''")
      case True
      then have "Ext_loop p (Suc n) = drop n p" by simp
      with True show ?thesis by auto
    next
      case nd: False
      from Suc.IH [OF n] show ?thesis
      proof
        assume "Ext_loop p n = []"
        with False nd show ?thesis by simp
      next
        assume "\<exists>i<n. Ext_loop p n = drop i p \<and> p ! i = CHR ''.''
          \<and> (\<forall>j. i < j \<and> j < n \<longrightarrow> p ! j \<noteq> CHR ''.'' \<and> p ! j \<noteq> CHR ''/'')"
        then obtain i where i: "i < n" "Ext_loop p n = drop i p" "p ! i = CHR ''.''"
          "\<forall>j. i < j \<and> j < n \<longrightarrow> p ! j \<noteq> CHR ''.'' \<and> p ! j \<noteq> CHR ''/''" by blast
        have "\<forall>j. i < j \<and> j < Suc n \<longrightarrow> p ! j \<noteq> CHR ''.'' \<and> p ! j \<noteq> CHR ''/''"
          using i(4) False nd by (auto simp: less_Suc_eq)
        moreover have "Ext_loop p (Suc n) = drop i p" using False nd i(2) by simp
        ultimately show ?thesis using i(1,3) by (intro disjI2 exI [of _ i]) simp
      qed
    qed
  qed
qed

lemma Ext_loop_empty:
  "n \<le> length p \<Longrightarrow> Ext_loop p n = [] \<Longrightarrow>
     \<forall>i<n. p ! i = CHR ''.'' \<longrightarrow> (\<exists>j. i < j \<and> j < n \<and> p ! j = CHR ''/'')"
proof (induction n)
  case 0
  show ?case by simp
next
  case (Suc n)
  then have n: "n \<le> length p" and nl: "n < length p" by simp_all
  show ?case
  proof (cases "p ! n = CHR ''/''")
    case True
    show ?thesis
    proof (intro allI impI)
      fix i assume i: "i < Suc n" and d: "p ! i = CHR ''.''"
      from d True have "i \<noteq> n" by auto
      with i have "i < n" by simp
      with True show "\<exists>j. i < j \<and> j < Suc n \<and> p ! j = CHR ''/''" by auto
    qed
  next
    case False
    have nd: "p ! n \<noteq> CHR ''.''"
    proof
      assume "p ! n = CHR ''.''"
      with False have "Ext_loop p (Suc n) = drop n p" by simp
      with Suc.prems(2) nl show False by simp
    qed
    with False Suc.prems(2) have "Ext_loop p n = []" by simp
    from Suc.IH [OF n this] have ih: "\<forall>i<n. p ! i = CHR ''.'' \<longrightarrow> (\<exists>j. i < j \<and> j < n \<and> p ! j = CHR ''/'')" .
    show ?thesis
    proof (intro allI impI)
      fix i assume i: "i < Suc n" and d: "p ! i = CHR ''.''"
      from d nd have "i \<noteq> n" by auto
      with i have "i < n" by simp
      with ih d obtain j where "i < j" "j < n" "p ! j = CHR ''/''" by blast
      then show "\<exists>j. i < j \<and> j < Suc n \<and> p ! j = CHR ''/''" by auto
    qed
  qed
qed

lemma Ext_shape:
  "arrayName p @ Ext p = p"
  "Ext p \<noteq> [] \<Longrightarrow> hd (Ext p) = CHR ''.'' \<and> CHR ''.'' \<notin> set (tl (Ext p)) \<and> CHR ''/'' \<notin> set (Ext p)"
proof -
  from Ext_loop_suffix [of "length p" p]
  consider "Ext p = []" |
    i where "i < length p" "Ext p = drop i p" "p ! i = CHR ''.''"
      "\<forall>j. i < j \<and> j < length p \<longrightarrow> p ! j \<noteq> CHR ''.'' \<and> p ! j \<noteq> CHR ''/''"
    by (auto simp: Ext_def)
  note c = this
  show "arrayName p @ Ext p = p"
  proof (cases rule: c)
    case 1
    then show ?thesis by (simp add: arrayName_def)
  next
    case (2 i)
    then have "length p - length (Ext p) = i" by simp
    then show ?thesis using 2(2) by (simp add: arrayName_def)
  qed
  show "hd (Ext p) = CHR ''.'' \<and> CHR ''.'' \<notin> set (tl (Ext p)) \<and> CHR ''/'' \<notin> set (Ext p)"
    if ne: "Ext p \<noteq> []"
  proof (cases rule: c)
    case 1
    with ne show ?thesis by simp
  next
    case (2 i)
    have d: "drop i p = p ! i # drop (Suc i) p" using 2(1) by (simp add: Cons_nth_drop_Suc)
    have t: "\<forall>c \<in> set (drop (Suc i) p). c \<noteq> CHR ''.'' \<and> c \<noteq> CHR ''/''"
    proof
      fix c assume "c \<in> set (drop (Suc i) p)"
      then obtain k where k: "k < length (drop (Suc i) p)" "c = drop (Suc i) p ! k"
        by (auto simp: in_set_conv_nth)
      then have "c = p ! (Suc i + k)" and "Suc i + k < length p" by auto
      with 2(4) show "c \<noteq> CHR ''.'' \<and> c \<noteq> CHR ''/''" by auto
    qed
    show ?thesis using 2(2,3) d t by auto
  qed
qed

text \<open>
  C9 (as amended). Whenever the headers parse, the first thing written to standard output
  is the line \<^verbatim>\<open>prog_uchar <identifier>[] PROGMEM = {\<close>, where the identifier is the input
  path as given, directories included, with its extension stripped: the path is the
  identifier followed by the extension. No base name is taken.
\<close>

theorem array_name_is_path_without_extension:
  assumes "parseHeaders r = Inr x"
  shows "hd (fst (main applyDither arg (Some r) g))
           = Text (''prog_uchar '' @ arrayName arg @ ''[] PROGMEM = {'' @ newline)
    \<and> arrayName arg @ Ext arg = arg
    \<and> (Ext arg \<noteq> [] \<longrightarrow>
          hd (Ext arg) = CHR ''.'' \<and> CHR ''.'' \<notin> set (tl (Ext arg)) \<and> CHR ''/'' \<notin> set (Ext arg))
    \<and> (Ext arg = [] \<longrightarrow>
          (\<forall>i<length arg. arg ! i = CHR ''.'' \<longrightarrow> (\<exists>j. i < j \<and> j < length arg \<and> arg ! j = CHR ''/'')))"
proof -
  obtain common r' where x: "x = (common, r')" by (cases x) auto
  have "hd (fst (main applyDither arg (Some r) g))
      = Text (''prog_uchar '' @ arrayName arg @ ''[] PROGMEM = {'' @ newline)"
    using assms x by (simp add: main_def split: prod.splits)
  moreover have "Ext arg = [] \<longrightarrow>
      (\<forall>i<length arg. arg ! i = CHR ''.'' \<longrightarrow> (\<exists>j. i < j \<and> j < length arg \<and> arg ! j = CHR ''/''))"
    using Ext_loop_empty [of "length arg" arg] by (simp add: Ext_def)
  ultimately show ?thesis using Ext_shape [of arg] by blast
qed

theorem array_name_is_path_without_extension_witness:
  "parseHeaders (example_aiff 1 1 8 [10])
     = Inr (\<lparr>NumChannels = 1, NumSampleFrames = 1, SampleSize = 8,
              SampleRate = \<lparr>Exponent = 0x400E, HiMant = 0xAC440000, LoMant = 0\<rparr>\<rparr>, [10])
   \<and> hd (fst (main False ''sounds.d/thirsty.v2.aiff'' (Some (example_aiff 1 1 8 [10])) rand_lo))
       = Text (''prog_uchar sounds.d/thirsty.v2[] PROGMEM = {'' @ newline)
   \<and> Ext ''sounds.d/thirsty.v2.aiff'' = ''.aiff''"
proof -
  have h: "parseHeaders (example_aiff 1 1 8 [10])
     = Inr (\<lparr>NumChannels = 1, NumSampleFrames = 1, SampleSize = 8,
              SampleRate = \<lparr>Exponent = 0x400E, HiMant = 0xAC440000, LoMant = 0\<rparr>\<rparr>, [10])"
    by (simp add: model_defs)
  have e: "Ext ''sounds.d/thirsty.v2.aiff'' = ''.aiff''"
    by (simp add: Ext_def numeral_eq_Suc)
  show ?thesis
    using array_name_is_path_without_extension [OF h, of False "''sounds.d/thirsty.v2.aiff''" rand_lo] h e
    by (simp add: arrayName_def)
qed

text \<open>
  The claim as stated fails for the path \<^verbatim>\<open>dir/foo.aiff\<close>: the identifier printed is
  \<^verbatim>\<open>dir/foo\<close>, not \<^verbatim>\<open>foo\<close>.
\<close>

theorem base_name_counterexample:
  "arrayName ''dir/foo.aiff'' = ''dir/foo''
   \<and> arrayName ''dir/foo.aiff'' \<noteq> ''foo''
   \<and> main False ''dir/foo.aiff'' (Some (example_aiff 1 1 8 [10])) rand_lo
       = ([Text (''prog_uchar dir/foo[] PROGMEM = {'' @ newline), Num 10, Text (''};'' @ newline)], None)"
  by (simp add: model_defs Let_def)

end
